theory Spec2Isabelle
  imports Main
begin

section \<open>Protocol values\<close>

text \<open>
  The handlers of \<^verbatim>\<open>startLanguageServer\<close> (packages/language-server/src/server.ts) receive
  JSON values from the connection. Fields typed \<^verbatim>\<open>any\<close> are modelled by \<open>'v js_any\<close>: the
  JSON value kinds, with \<open>'v\<close> the payload of an object. A field that is absent reads as
  \<open>JsUndefined\<close>. Numbers are integers here; JSON has no NaN.
\<close>

datatype 'v js_any =
    JsUndefined
  | JsNull
  | JsBoolean bool
  | JsNumber int
  | JsString string
  | JsObject 'v

text \<open>JavaScript's ToBoolean, as used by \<^verbatim>\<open>!x\<close>, \<^verbatim>\<open>!!x\<close> and \<^verbatim>\<open>x || y\<close>.\<close>

fun truthy :: "'v js_any \<Rightarrow> bool" where
  "truthy JsUndefined = False"
| "truthy JsNull = False"
| "truthy (JsBoolean b) = b"
| "truthy (JsNumber n) = (n \<noteq> 0)"
| "truthy (JsString s) = (s \<noteq> [])"
| "truthy (JsObject v) = True"

datatype text_document_identifier = TextDocumentIdentifier (td_uri: string)

datatype 'v text_document_item = TextDocumentItem (item_uri: string) (item_rest: 'v)

record position =
  line :: nat
  character :: nat

record lsp_range =
  range_start :: position
  range_end :: position

datatype cancellation_token = CancellationToken nat

datatype 'v astro_document = AstroDocument (doc_uri: string) (doc_content: 'v)

record 'v completion_item =
  label :: string
  data :: "text_document_identifier js_any"
  item_fields :: 'v

record 'v file_event =
  fe_uri :: string
  fe_type :: 'v

record 'v watch_file_change =
  fileName :: "string option"
  changeType :: 'v

section \<open>Initialize parameters\<close>

record workspace_client_capabilities =
  ws_configuration :: "bool option"

record definition_client_capabilities =
  linkSupport :: "bool option"

record text_document_client_capabilities =
  td_definition :: "definition_client_capabilities option"

record client_capabilities =
  cap_workspace :: "workspace_client_capabilities option"
  cap_textDocument :: "text_document_client_capabilities option"

text \<open>
  \<^verbatim>\<open>initializationOptions\<close> is optional in the protocol (\<open>None\<close> is undefined or null).
  When it is present, its two fields that the server reads are arbitrary JSON values.
\<close>

record 'v initialization_options =
  dontFilterIncompleteCompletions :: "'v js_any"
  environment :: "'v js_any"

record 'v initialize_params =
  workspaceFolders :: "string list option"
  rootUri :: "string option"
  capabilities :: client_capabilities
  initializationOptions :: "'v initialization_options option"

record 'v did_change_configuration_params =
  settings_astro :: "'v js_any"

section \<open>Imported names whose bodies are outside server.ts\<close>

record astro_version =
  full :: string
  major :: nat
  minor :: nat
  patch :: nat
  exist :: bool

text \<open>
  \<^verbatim>\<open>urlToPath\<close>, \<^verbatim>\<open>getUserAstroVersion\<close> (./utils) and \<^verbatim>\<open>defaultLSConfig\<close>
  (./core/config/ConfigManager) are imported by server.ts; they are parameters of the model.
  \<open>getAllOpenedByClient\<close> is what \<^verbatim>\<open>documentManager.getAllOpenedByClient()\<close> answers at the
  moment a handler asks: the entries \<^verbatim>\<open>[key, document]\<close>.
\<close>

record 'v env =
  urlToPath :: "string \<Rightarrow> string option"
  getUserAstroVersion :: "string option \<Rightarrow> astro_version"
  defaultLSConfig :: 'v
  getAllOpenedByClient :: "(string \<times> 'v astro_document) list"

section \<open>Calls that the handlers make on their collaborators\<close>

datatype message_type = MessageType_Error | MessageType_Warning

datatype show_message =
    CouldntFindAstro "string option"
  | AstroVersionNotSupported string

datatype plugin =
    HTMLPlugin
  | CSSPlugin
  | AstroPlugin "string list"
  | TypeScriptPlugin "string list"

text \<open>
  One constructor per method that server.ts invokes, with the arguments in the order of the
  source. \<open>UpdateAllDiagnostics\<close> is an invocation of the wrapper
  \<^verbatim>\<open>debounceThrottle(() => diagnosticsManager.updateAll(), 1000)\<close>, and \<open>DocumentChangeHandler\<close>
  one of the wrapper \<^verbatim>\<open>debounceThrottle(async (document) => diagnosticsManager.update(document), 1000)\<close>.
\<close>

datatype 'v call =
    Connection_sendNotification message_type show_message
  | Connection_console_log string
  | Connection_client_register
  | PluginHost_initialize bool bool
  | PluginHost_registerPlugin plugin
  | PluginHost_onWatchFileChanges "'v watch_file_change list"
  | PluginHost_doHover text_document_identifier position
  | PluginHost_getDefinitions text_document_identifier position
  | PluginHost_getFoldingRanges text_document_identifier
  | PluginHost_getCodeActions text_document_identifier lsp_range 'v cancellation_token
  | PluginHost_getCompletions text_document_identifier position 'v
  | PluginHost_resolveCompletion "text_document_identifier js_any" "'v completion_item"
  | PluginHost_getDocumentSymbols text_document_identifier cancellation_token
  | PluginHost_getSemanticTokens text_document_identifier "lsp_range option" cancellation_token
  | PluginHost_getLinkedEditingRanges text_document_identifier position
  | PluginHost_formatDocument text_document_identifier 'v
  | PluginHost_getDocumentColors text_document_identifier
  | PluginHost_getColorPresentations text_document_identifier lsp_range 'v
  | PluginHost_getInlayHints text_document_identifier lsp_range cancellation_token
  | PluginHost_doTagComplete text_document_identifier position
  | PluginHost_getSignatureHelp text_document_identifier position 'v cancellation_token
  | PluginHost_rename text_document_identifier position string
  | PluginHost_updateNonAstroFile string 'v
  | PluginHost_updateImports 'v
  | ConfigManager_updateConfig
  | ConfigManager_getConfig string string
  | ConfigManager_updateGlobalConfig "'v js_any"
  | ConfigManager_removeDocument string
  | DocumentManager_openDocument "'v text_document_item"
  | DocumentManager_markAsOpenedInClient string
  | DocumentManager_closeDocument string
  | DocumentManager_updateDocument text_document_identifier 'v
  | DiagnosticsManager_removeDiagnostics "'v astro_document"
  | UpdateAllDiagnostics
  | DocumentChangeHandler "'v astro_document"

text \<open>
  What a handler hands back to the connection: the capabilities object of
  \<^verbatim>\<open>onInitialize\<close>, nothing, the completion item it was given, or whatever the plugin host
  call it ends with returns.
\<close>

datatype 'v response =
    InitializeResult
  | Void
  | ReturnedItem "'v completion_item"
  | ResultOf "'v call"

datatype error = TypeError

record server =
  hasConfigurationCapability :: bool

record 'v reaction =
  state :: server
  calls :: "'v call list"
  result :: "error + 'v response"

definition startLanguageServer :: server where
  "startLanguageServer = \<lparr>hasConfigurationCapability = False\<rparr>"

section \<open>The handlers of server.ts\<close>

subsection \<open>onInitialize (lines 44-152)\<close>

definition workspaceUris :: "'v initialize_params \<Rightarrow> string list" where
  "workspaceUris params =
     (case workspaceFolders params of
        Some folders \<Rightarrow> folders
      | None \<Rightarrow> [case rootUri params of Some u \<Rightarrow> u | None \<Rightarrow> []])"

text \<open>The body of the \<^verbatim>\<open>forEach\<close> over the workspace URIs (lines 47-65).\<close>

definition checkAstroVersion :: "'v env \<Rightarrow> string \<Rightarrow> 'v call list" where
  "checkAstroVersion e uri0 =
     (let uri = urlToPath e uri0;
          astroVersion = getUserAstroVersion e uri
      in (if exist astroVersion = False
          then [Connection_sendNotification MessageType_Warning (CouldntFindAstro uri)]
          else []) @
         (if exist astroVersion \<and> major astroVersion = 0 \<and> minor astroVersion < 24
               \<and> patch astroVersion < 5
          then [Connection_sendNotification MessageType_Error
                  (AstroVersionNotSupported (full astroVersion))]
          else []))"

text \<open>
  Line 70 reads \<^verbatim>\<open>params.initializationOptions?.dontFilterIncompleteCompletions\<close>, undefined
  when the options are absent, and line 71
  \<^verbatim>\<open>params.capabilities.textDocument?.definition?.linkSupport\<close>, undefined when a link of the
  chain is absent. Line 79 reads \<^verbatim>\<open>params.initializationOptions.environment\<close> with no
  \<^verbatim>\<open>?.\<close>, which raises a TypeError when the options are absent. The calls made before the
  raise stay made.
\<close>

definition onInitialize :: "'v env \<Rightarrow> server \<Rightarrow> 'v initialize_params \<Rightarrow> 'v reaction" where
  "onInitialize e s params =
     (let uris = workspaceUris params;
          notifications = concat (map (checkAstroVersion e) uris);
          s' = s\<lparr>hasConfigurationCapability :=
                 (case cap_workspace (capabilities params) of
                    None \<Rightarrow> False
                  | Some w \<Rightarrow> ws_configuration w = Some True)\<rparr>;
          dontFilter =
            (case initializationOptions params of
               None \<Rightarrow> JsUndefined
             | Some opts \<Rightarrow> dontFilterIncompleteCompletions opts);
          link =
            (case cap_textDocument (capabilities params) of
               None \<Rightarrow> None
             | Some td \<Rightarrow>
                 (case td_definition td of None \<Rightarrow> None | Some d \<Rightarrow> linkSupport d));
          before =
            notifications @
            [PluginHost_initialize (\<not> truthy dontFilter) (link = Some True),
             PluginHost_registerPlugin HTMLPlugin,
             PluginHost_registerPlugin CSSPlugin]
      in case initializationOptions params of
           None \<Rightarrow> \<lparr>state = s', calls = before, result = Inl TypeError\<rparr>
         | Some opts \<Rightarrow>
             \<lparr>state = s',
              calls = before @
                (if environment opts \<noteq> JsString ''browser''
                 then [PluginHost_registerPlugin (AstroPlugin uris),
                       PluginHost_registerPlugin (TypeScriptPlugin uris)]
                 else []),
              result = Inr InitializeResult\<rparr>)"

subsection \<open>onDidChangeConfiguration (lines 156-166)\<close>

text \<open>
  \<open>None\<close> for the change's settings is \<^verbatim>\<open>change.settings\<close> being null or undefined, where
  \<^verbatim>\<open>change.settings.astro\<close> raises; the branch with the configuration capability never reads
  the settings.
\<close>

definition onDidChangeConfiguration ::
  "'v env \<Rightarrow> server \<Rightarrow> 'v did_change_configuration_params option \<Rightarrow> 'v reaction" where
  "onDidChangeConfiguration e s change =
     (if hasConfigurationCapability s
      then \<lparr>state = s,
            calls = ConfigManager_updateConfig #
              map (\<lambda>document. ConfigManager_getConfig ''astro'' (doc_uri (snd document)))
                (getAllOpenedByClient e),
            result = Inr Void\<rparr>
      else (case change of
              None \<Rightarrow> \<lparr>state = s, calls = [], result = Inl TypeError\<rparr>
            | Some settings \<Rightarrow>
                \<lparr>state = s,
                 calls = [ConfigManager_updateGlobalConfig
                            (if truthy (settings_astro settings) then settings_astro settings
                             else JsObject (defaultLSConfig e))],
                 result = Inr Void\<rparr>))"

subsection \<open>Document notifications (lines 169-178)\<close>

definition onDidOpenTextDocument :: "server \<Rightarrow> 'v text_document_item \<Rightarrow> 'v reaction" where
  "onDidOpenTextDocument s textDocument =
     \<lparr>state = s,
      calls = [DocumentManager_openDocument textDocument,
               DocumentManager_markAsOpenedInClient (item_uri textDocument)],
      result = Inr Void\<rparr>"

definition onDidCloseTextDocument :: "server \<Rightarrow> text_document_identifier \<Rightarrow> 'v reaction" where
  "onDidCloseTextDocument s textDocument =
     \<lparr>state = s,
      calls = [DocumentManager_closeDocument (td_uri textDocument)],
      result = Inr (ResultOf (DocumentManager_closeDocument (td_uri textDocument)))\<rparr>"

definition onDidChangeTextDocument ::
  "server \<Rightarrow> text_document_identifier \<Rightarrow> 'v \<Rightarrow> 'v reaction" where
  "onDidChangeTextDocument s textDocument contentChanges =
     \<lparr>state = s,
      calls = [DocumentManager_updateDocument textDocument contentChanges],
      result = Inr Void\<rparr>"

subsection \<open>onDidChangeWatchedFiles (lines 188-198)\<close>

definition onDidChangeWatchedFiles :: "'v env \<Rightarrow> server \<Rightarrow> 'v file_event list \<Rightarrow> 'v reaction" where
  "onDidChangeWatchedFiles e s changes =
     (let params =
            filter (\<lambda>change. case fileName change of None \<Rightarrow> False | Some f \<Rightarrow> f \<noteq> [])
              (map (\<lambda>change. \<lparr>fileName = urlToPath e (fe_uri change), changeType = fe_type change\<rparr>)
                 changes)
      in \<lparr>state = s,
          calls = [PluginHost_onWatchFileChanges params, UpdateAllDiagnostics],
          result = Inr Void\<rparr>)"

subsection \<open>Feature requests (lines 201-258)\<close>

text \<open>
  The connection invokes every request handler with the request's parameters and its
  cancellation token. A request carries the fields that its handler reads.
\<close>

datatype 'v feature_request =
    Hover text_document_identifier position
  | Definition text_document_identifier position
  | FoldingRanges text_document_identifier
  | CodeAction text_document_identifier lsp_range 'v
  | Completion text_document_identifier position 'v
  | DocumentSymbol text_document_identifier
  | SemanticTokens text_document_identifier
  | SemanticTokensRange text_document_identifier lsp_range
  | LinkedEditingRange text_document_identifier position
  | DocumentFormatting text_document_identifier 'v
  | DocumentColor text_document_identifier
  | ColorPresentation text_document_identifier lsp_range 'v
  | InlayHint text_document_identifier lsp_range
  | TagClose text_document_identifier position
  | SignatureHelp text_document_identifier position 'v
  | Rename text_document_identifier position string

text \<open>The plugin host call of each handler, one equation per handler, in the source's order.\<close>

fun dispatch :: "'v feature_request \<Rightarrow> cancellation_token \<Rightarrow> 'v call" where
  "dispatch (Hover textDocument pos) cancellationToken =
     PluginHost_doHover textDocument pos"
| "dispatch (Definition textDocument pos) cancellationToken =
     PluginHost_getDefinitions textDocument pos"
| "dispatch (FoldingRanges textDocument) cancellationToken =
     PluginHost_getFoldingRanges textDocument"
| "dispatch (CodeAction textDocument rng ctx) cancellationToken =
     PluginHost_getCodeActions textDocument rng ctx cancellationToken"
| "dispatch (Completion textDocument pos ctx) cancellationToken =
     PluginHost_getCompletions textDocument pos ctx"
| "dispatch (DocumentSymbol textDocument) cancellationToken =
     PluginHost_getDocumentSymbols textDocument cancellationToken"
| "dispatch (SemanticTokens textDocument) cancellationToken =
     PluginHost_getSemanticTokens textDocument None cancellationToken"
| "dispatch (SemanticTokensRange textDocument rng) cancellationToken =
     PluginHost_getSemanticTokens textDocument (Some rng) cancellationToken"
| "dispatch (LinkedEditingRange textDocument pos) cancellationToken =
     PluginHost_getLinkedEditingRanges textDocument pos"
| "dispatch (DocumentFormatting textDocument opts) cancellationToken =
     PluginHost_formatDocument textDocument opts"
| "dispatch (DocumentColor textDocument) cancellationToken =
     PluginHost_getDocumentColors textDocument"
| "dispatch (ColorPresentation textDocument rng color) cancellationToken =
     PluginHost_getColorPresentations textDocument rng color"
| "dispatch (InlayHint textDocument rng) cancellationToken =
     PluginHost_getInlayHints textDocument rng cancellationToken"
| "dispatch (TagClose textDocument pos) cancellationToken =
     PluginHost_doTagComplete textDocument pos"
| "dispatch (SignatureHelp textDocument pos ctx) cancellationToken =
     PluginHost_getSignatureHelp textDocument pos ctx cancellationToken"
| "dispatch (Rename textDocument pos newName) cancellationToken =
     PluginHost_rename textDocument pos newName"

definition onRequest :: "server \<Rightarrow> 'v feature_request \<Rightarrow> cancellation_token \<Rightarrow> 'v reaction" where
  "onRequest s req cancellationToken =
     \<lparr>state = s,
      calls = [dispatch req cancellationToken],
      result = Inr (ResultOf (dispatch req cancellationToken))\<rparr>"

text \<open>The cancellation token among the arguments of a call, for the calls that take one.\<close>

fun token_of :: "'v call \<Rightarrow> cancellation_token option" where
  "token_of (PluginHost_getCodeActions textDocument rng ctx tok) = Some tok"
| "token_of (PluginHost_getDocumentSymbols textDocument tok) = Some tok"
| "token_of (PluginHost_getSemanticTokens textDocument rng tok) = Some tok"
| "token_of (PluginHost_getInlayHints textDocument rng tok) = Some tok"
| "token_of (PluginHost_getSignatureHelp textDocument pos ctx tok) = Some tok"
| "token_of c = None"

subsection \<open>onCompletionResolve (lines 216-223)\<close>

definition onCompletionResolve :: "server \<Rightarrow> 'v completion_item \<Rightarrow> 'v reaction" where
  "onCompletionResolve s completionItem =
     (let d = data completionItem
      in if \<not> truthy d
         then \<lparr>state = s, calls = [], result = Inr (ReturnedItem completionItem)\<rparr>
         else \<lparr>state = s,
               calls = [PluginHost_resolveCompletion d completionItem],
               result = Inr (ResultOf (PluginHost_resolveCompletion d completionItem))\<rparr>)"

subsection \<open>Saves, other files, renames (lines 260-267, 281-283)\<close>

text \<open>
  \<^verbatim>\<open>connection.onDidSaveTextDocument(updateAllDiagnostics)\<close>: the wrapper itself is the
  handler.
\<close>

definition onDidSaveTextDocument :: "server \<Rightarrow> 'v \<Rightarrow> 'v reaction" where
  "onDidSaveTextDocument s params =
     \<lparr>state = s, calls = [UpdateAllDiagnostics], result = Inr Void\<rparr>"

definition onDidChangeNonAstroFile :: "'v env \<Rightarrow> server \<Rightarrow> string \<Rightarrow> 'v \<Rightarrow> 'v reaction" where
  "onDidChangeNonAstroFile e s uri changes =
     (let path = urlToPath e uri
      in \<lparr>state = s,
          calls =
            (case path of
               None \<Rightarrow> []
             | Some p \<Rightarrow> if p \<noteq> [] then [PluginHost_updateNonAstroFile p changes] else []) @
            [UpdateAllDiagnostics],
          result = Inr Void\<rparr>)"

definition getEditsForFileRename :: "server \<Rightarrow> 'v \<Rightarrow> 'v reaction" where
  "getEditsForFileRename s fileRename =
     \<lparr>state = s,
      calls = [PluginHost_updateImports fileRename],
      result = Inr (ResultOf (PluginHost_updateImports fileRename))\<rparr>"

subsection \<open>Document manager events (lines 269-277)\<close>

definition documentChange :: "server \<Rightarrow> 'v astro_document \<Rightarrow> 'v reaction" where
  "documentChange s document =
     \<lparr>state = s, calls = [DocumentChangeHandler document], result = Inr Void\<rparr>"

definition documentClose :: "server \<Rightarrow> 'v astro_document \<Rightarrow> 'v reaction" where
  "documentClose s document =
     \<lparr>state = s,
      calls = [DiagnosticsManager_removeDiagnostics document,
               ConfigManager_removeDocument (doc_uri document)],
      result = Inr Void\<rparr>"

subsection \<open>onInitialized (lines 286-293)\<close>

text \<open>The logged message is written here without the emoji that ends it.\<close>

definition onInitialized :: "server \<Rightarrow> 'v reaction" where
  "onInitialized s =
     \<lparr>state = s,
      calls = Connection_console_log ''Successfully initialized!'' #
        (if hasConfigurationCapability s then [Connection_client_register] else []),
      result = Inr Void\<rparr>"

section \<open>The server as a whole\<close>

datatype 'v event =
    Initialize "'v initialize_params"
  | DidChangeConfiguration "'v did_change_configuration_params option"
  | DidOpenTextDocument "'v text_document_item"
  | DidCloseTextDocument text_document_identifier
  | DidChangeTextDocument text_document_identifier 'v
  | DidChangeWatchedFiles "'v file_event list"
  | Request "'v feature_request" cancellation_token
  | CompletionResolve "'v completion_item"
  | DidSaveTextDocument 'v
  | DidChangeNonAstroFile string 'v
  | GetEditsForFileRename 'v
  | DocumentChange "'v astro_document"
  | DocumentClose "'v astro_document"
  | Initialized

fun handle :: "'v env \<Rightarrow> server \<Rightarrow> 'v event \<Rightarrow> 'v reaction" where
  "handle e s (Initialize params) = onInitialize e s params"
| "handle e s (DidChangeConfiguration change) = onDidChangeConfiguration e s change"
| "handle e s (DidOpenTextDocument textDocument) = onDidOpenTextDocument s textDocument"
| "handle e s (DidCloseTextDocument textDocument) = onDidCloseTextDocument s textDocument"
| "handle e s (DidChangeTextDocument textDocument contentChanges) =
     onDidChangeTextDocument s textDocument contentChanges"
| "handle e s (DidChangeWatchedFiles changes) = onDidChangeWatchedFiles e s changes"
| "handle e s (Request req cancellationToken) = onRequest s req cancellationToken"
| "handle e s (CompletionResolve completionItem) = onCompletionResolve s completionItem"
| "handle e s (DidSaveTextDocument params) = onDidSaveTextDocument s params"
| "handle e s (DidChangeNonAstroFile uri changes) = onDidChangeNonAstroFile e s uri changes"
| "handle e s (GetEditsForFileRename fileRename) = getEditsForFileRename s fileRename"
| "handle e s (DocumentChange document) = documentChange s document"
| "handle e s (DocumentClose document) = documentClose s document"
| "handle e s Initialized = onInitialized s"

text \<open>
  A session: the events in arrival order, each with what the collaborators answer at that
  moment. A handler that raises fails its own request only; the server goes on with the next
  event. The result is the final state and every call made, in order.
\<close>

fun session :: "server \<Rightarrow> ('v env \<times> 'v event) list \<Rightarrow> server \<times> 'v call list" where
  "session s [] = (s, [])"
| "session s ((e, ev) # rest) =
     (let r = handle e s ev;
          after = session (state r) rest
      in (fst after, calls r @ snd after))"

definition is_Initialize :: "'v event \<Rightarrow> bool" where
  "is_Initialize ev = (case ev of Initialize params \<Rightarrow> True | other \<Rightarrow> False)"

text \<open>The provider registry and the options that a sequence of calls leaves in the plugin host.\<close>

fun registered :: "'v call list \<Rightarrow> plugin list" where
  "registered [] = []"
| "registered (PluginHost_registerPlugin p # cs) = p # registered cs"
| "registered (c # cs) = registered cs"

fun captured :: "'v call list \<Rightarrow> (bool \<times> bool) list" where
  "captured [] = []"
| "captured (PluginHost_initialize filterIncompleteCompletions definitionLinkSupport # cs) =
     (filterIncompleteCompletions, definitionLinkSupport) # captured cs"
| "captured (c # cs) = captured cs"

text \<open>
  The configuration deliveries among a sequence of calls: \<^verbatim>\<open>updateConfig()\<close> starts the
  dynamic mode (invalidate, then fetch again), \<^verbatim>\<open>updateGlobalConfig(value)\<close> is the pushed mode.
\<close>

datatype delivery = Dynamic | Pushed

fun deliveries :: "'v call list \<Rightarrow> delivery list" where
  "deliveries [] = []"
| "deliveries (ConfigManager_updateConfig # cs) = Dynamic # deliveries cs"
| "deliveries (ConfigManager_updateGlobalConfig v # cs) = Pushed # deliveries cs"
| "deliveries (c # cs) = deliveries cs"

text \<open>The feature-request kinds whose handler passes its cancellation token on.\<close>

fun forwards_token :: "'v feature_request \<Rightarrow> bool" where
  "forwards_token (CodeAction textDocument rng ctx) = True"
| "forwards_token (DocumentSymbol textDocument) = True"
| "forwards_token (SemanticTokens textDocument) = True"
| "forwards_token (SemanticTokensRange textDocument rng) = True"
| "forwards_token (InlayHint textDocument rng) = True"
| "forwards_token (SignatureHelp textDocument pos ctx) = True"
| "forwards_token req = False"

section \<open>Collaborators on document close\<close>

text \<open>
  Modelled from the spec: the bodies of \<^verbatim>\<open>DiagnosticsManager.removeDiagnostics\<close>
  (./core/DiagnosticsManager) and \<^verbatim>\<open>ConfigManager.removeDocument\<close> (./core/config/ConfigManager)
  are not part of server.ts. The specification says of the first: "on close, publish an empty
  diagnostic set for that URI so the client clears stale markers, then stop tracking it", and of
  the second that closing a document triggers "config-cache eviction for that URI".
  \<open>published\<close> is the sequence of diagnostic sets sent to the client, \<open>tracked\<close> the URIs
  that \<^verbatim>\<open>updateAll\<close> goes through, \<open>documentConfigs\<close> the per-document configuration cache.
\<close>

record ('v, 'd) collaborators =
  published :: "(string \<times> 'd list) list"
  tracked :: "string list"
  documentConfigs :: "string \<rightharpoonup> 'v"

definition removeDiagnostics ::
  "'v astro_document \<Rightarrow> ('v, 'd) collaborators \<Rightarrow> ('v, 'd) collaborators" where
  "removeDiagnostics document c =
     c\<lparr>published := published c @ [(doc_uri document, [])],
       tracked := removeAll (doc_uri document) (tracked c)\<rparr>"

definition removeDocument :: "string \<Rightarrow> ('v, 'd) collaborators \<Rightarrow> ('v, 'd) collaborators" where
  "removeDocument uri c = c\<lparr>documentConfigs := (documentConfigs c)(uri := None)\<rparr>"

text \<open>
  The effect of a sequence of calls on these collaborators; \<open>None\<close> when the sequence has a
  call whose body is not modelled.
\<close>

fun perform :: "'v call list \<Rightarrow> ('v, 'd) collaborators \<Rightarrow> ('v, 'd) collaborators option" where
  "perform [] c = Some c"
| "perform (DiagnosticsManager_removeDiagnostics document # cs) c =
     perform cs (removeDiagnostics document c)"
| "perform (ConfigManager_removeDocument uri # cs) c = perform cs (removeDocument uri c)"
| "perform (other # cs) c = None"

section \<open>The debounce/throttle wrapper of the documentChange handler\<close>

text \<open>
  Modelled from the spec: the body of \<^verbatim>\<open>debounceThrottle\<close> (./utils) is not part of server.ts,
  which only creates the wrappers, with an interval of 1000. The specification describes the
  diagnostics scheduler as a state machine per document, in which repeated triggers within the
  debounce/throttle window collapse into one pending recompute, and whose policy combines
  debounce (wait for a quiet period after the last trigger before starting) with throttle (a
  recompute at least once per interval under continuous triggers), both bounded by the same
  interval. Following these words, the timers are kept per document, by the URI of the
  document that the handler is given.

  Time is in milliseconds. A document with a pending recompute has a timer: the time of the
  first trigger of its window (\<open>since\<close>), the time of its latest trigger (\<open>latest\<close>) and the
  latest document argument (\<open>args\<close>); a document without a timer is idle. The recompute is due
  at the earlier of the debounce bound and the throttle bound. Only the start of a recompute is
  modelled, not its duration.
\<close>

datatype 'v timer = Scheduled (since: nat) (latest: nat) (args: "'v astro_document")

definition deadline :: "nat \<Rightarrow> 'v timer \<Rightarrow> nat" where
  "deadline milliseconds p = min (latest p + milliseconds) (since p + milliseconds)"

text \<open>
  A trigger for a document reaches the timer of that document only. A timer that was due when
  the trigger arrives has fired at its deadline and the trigger opens a new window; otherwise
  the trigger joins the pending recompute. Timers that are still pending when the stream of
  triggers ends fire at their deadlines. A recompute is recorded as the time it starts at and
  the document it is given.
\<close>

definition on_trigger ::
  "nat \<Rightarrow> nat \<Rightarrow> 'v astro_document \<Rightarrow> 'v timer \<Rightarrow> (nat \<times> 'v astro_document) list \<times> 'v timer" where
  "on_trigger milliseconds t document p =
     (if doc_uri (args p) \<noteq> doc_uri document then ([], p)
      else if deadline milliseconds p \<le> t
      then ([(deadline milliseconds p, args p)], Scheduled t t document)
      else ([], Scheduled (since p) t document))"

definition trigger ::
  "nat \<Rightarrow> nat \<times> 'v astro_document \<Rightarrow> 'v timer list \<Rightarrow>
   (nat \<times> 'v astro_document) list \<times> 'v timer list" where
  "trigger milliseconds tr sched =
     (if doc_uri (snd tr) \<in> set (map (\<lambda>p. doc_uri (args p)) sched)
      then (concat (map (\<lambda>p. fst (on_trigger milliseconds (fst tr) (snd tr) p)) sched),
            map (\<lambda>p. snd (on_trigger milliseconds (fst tr) (snd tr) p)) sched)
      else ([], sched @ [Scheduled (fst tr) (fst tr) (snd tr)]))"

fun run ::
  "nat \<Rightarrow> 'v timer list \<Rightarrow> (nat \<times> 'v astro_document) list \<Rightarrow> (nat \<times> 'v astro_document) list" where
  "run milliseconds sched [] = map (\<lambda>p. (deadline milliseconds p, args p)) sched"
| "run milliseconds sched (tr # trs) =
     fst (trigger milliseconds tr sched) @ run milliseconds (snd (trigger milliseconds tr sched)) trs"

definition debounceThrottle ::
  "nat \<Rightarrow> (nat \<times> 'v astro_document) list \<Rightarrow> (nat \<times> 'v astro_document) list" where
  "debounceThrottle milliseconds trs = run milliseconds [] trs"

text \<open>The triggers, or the recomputes, of the document with URI \<open>k\<close>.\<close>

definition for_document ::
  "string \<Rightarrow> (nat \<times> 'v astro_document) list \<Rightarrow> (nat \<times> 'v astro_document) list" where
  "for_document k rs = filter (\<lambda>r. doc_uri (snd r) = k) rs"

text \<open>
  The triggers that reach the wrapper in a session whose events carry their arrival times: the
  invocations \<open>DocumentChangeHandler\<close> among the calls of the handlers. \<open>changes_of k\<close> are the
  documentChange events of the document with URI \<open>k\<close>, \<open>updates_of k\<close> the times at which
  \<^verbatim>\<open>diagnosticsManager.update\<close> starts for it.
\<close>

fun update_requests :: "'v call list \<Rightarrow> 'v astro_document list" where
  "update_requests [] = []"
| "update_requests (DocumentChangeHandler document # cs) = document # update_requests cs"
| "update_requests (c # cs) = update_requests cs"

fun documentChange_triggers ::
  "server \<Rightarrow> (nat \<times> 'v env \<times> 'v event) list \<Rightarrow> (nat \<times> 'v astro_document) list" where
  "documentChange_triggers s [] = []"
| "documentChange_triggers s ((t, e, ev) # rest) =
     (let r = handle e s ev
      in map (Pair t) (update_requests (calls r)) @ documentChange_triggers (state r) rest)"

definition diagnostics_updates ::
  "server \<Rightarrow> (nat \<times> 'v env \<times> 'v event) list \<Rightarrow> (nat \<times> 'v astro_document) list" where
  "diagnostics_updates s evs = debounceThrottle 1000 (documentChange_triggers s evs)"

definition changes_of ::
  "string \<Rightarrow> (nat \<times> 'v env \<times> 'v event) list \<Rightarrow> (nat \<times> 'v env \<times> 'v event) list" where
  "changes_of k evs =
     filter (\<lambda>x. case snd (snd x) of
                   DocumentChange document \<Rightarrow> doc_uri document = k
                 | other \<Rightarrow> False) evs"

definition updates_of :: "string \<Rightarrow> server \<Rightarrow> (nat \<times> 'v env \<times> 'v event) list \<Rightarrow> nat list" where
  "updates_of k s evs = map fst (for_document k (diagnostics_updates s evs))"

text \<open>
  The claim's words, for comparison with the wrapper: the changes of a document fall into
  windows. The first change opens a window of the given length; the changes that arrive before
  the window ends belong to it; the first change at or after its end opens the next window.
  \<open>window_starts\<close> gives the opening time of each window, from the times of the changes in
  order.
\<close>

function window_starts :: "nat \<Rightarrow> nat list \<Rightarrow> nat list" where
  "window_starts milliseconds [] = []"
| "window_starts milliseconds (t # ts) =
     t # window_starts milliseconds (dropWhile (\<lambda>u. u < t + milliseconds) ts)"
  by pat_completeness auto
termination
  by (relation "measure (\<lambda>(milliseconds, ts). length ts)")
     (auto simp: length_dropWhile_le less_Suc_eq_le)

section \<open>Example inputs\<close>

definition example_env :: "unit env" where
  "example_env =
     \<lparr>urlToPath = Some,
      getUserAstroVersion =
        (\<lambda>uri. \<lparr>full = ''1.0.0'', major = 1, minor = 0, patch = 0, exist = True\<rparr>),
      defaultLSConfig = (),
      getAllOpenedByClient =
        [(''file:///a.astro'', AstroDocument ''file:///a.astro'' ()),
         (''file:///b.astro'', AstroDocument ''file:///b.astro'' ())]\<rparr>"

definition example_params :: "unit initialization_options option \<Rightarrow> unit initialize_params" where
  "example_params opts =
     \<lparr>workspaceFolders = Some [''file:///w''],
      rootUri = None,
      capabilities = \<lparr>cap_workspace = None, cap_textDocument = None\<rparr>,
      initializationOptions = opts\<rparr>"

definition example_params_linkSupport :: "bool option \<Rightarrow> unit initialize_params" where
  "example_params_linkSupport l =
     \<lparr>workspaceFolders = None,
      rootUri = Some ''file:///w'',
      capabilities =
        \<lparr>cap_workspace = Some \<lparr>ws_configuration = Some True\<rparr>,
         cap_textDocument = Some \<lparr>td_definition = Some \<lparr>linkSupport = l\<rparr>\<rparr>\<rparr>,
      initializationOptions =
        Some \<lparr>dontFilterIncompleteCompletions = JsUndefined, environment = JsString ''node''\<rparr>\<rparr>"

definition example_changes :: "(nat \<times> unit env \<times> unit event) list" where
  "example_changes =
     [(0, example_env, DocumentChange (AstroDocument ''a'' ())),
      (100, example_env, DocumentChange (AstroDocument ''b'' ())),
      (200, example_env, DocumentChange (AstroDocument ''a'' ())),
      (900, example_env, DocumentChange (AstroDocument ''b'' ())),
      (1000, example_env, DocumentChange (AstroDocument ''a'' ())),
      (1001, example_env, DocumentChange (AstroDocument ''a'' ())),
      (1002, example_env, DocumentChange (AstroDocument ''a'' ())),
      (1500, example_env, DocumentChange (AstroDocument ''a'' ()))]"

section \<open>What a handler's calls contain\<close>

lemma captured_append: "captured (xs @ ys) = captured xs @ captured ys"
  by (induction xs rule: captured.induct) simp_all

lemma registered_append: "registered (xs @ ys) = registered xs @ registered ys"
  by (induction xs rule: registered.induct) simp_all

lemma captured_checkAstroVersion: "captured (checkAstroVersion e uri) = []"
  by (simp add: checkAstroVersion_def Let_def)

lemma registered_checkAstroVersion: "registered (checkAstroVersion e uri) = []"
  by (simp add: checkAstroVersion_def Let_def)

lemma captured_notifications: "captured (concat (map (checkAstroVersion e) uris)) = []"
  by (induction uris) (simp_all add: captured_append captured_checkAstroVersion)

lemma registered_notifications: "registered (concat (map (checkAstroVersion e) uris)) = []"
  by (induction uris) (simp_all add: registered_append registered_checkAstroVersion)

lemma captured_getConfig:
  "captured (map (\<lambda>document. ConfigManager_getConfig ns (doc_uri (snd document))) ds) = []"
  by (induction ds) simp_all

lemma registered_getConfig:
  "registered (map (\<lambda>document. ConfigManager_getConfig ns (doc_uri (snd document))) ds) = []"
  by (induction ds) simp_all

lemma captured_dispatch: "captured [dispatch req tok] = []"
  by (cases req) simp_all

lemma registered_dispatch: "registered [dispatch req tok] = []"
  by (cases req) simp_all

lemma captured_onInitialize:
  "captured (calls (onInitialize e s params)) =
           [(\<not> truthy (case initializationOptions params of
                         None \<Rightarrow> JsUndefined
                       | Some opts \<Rightarrow> dontFilterIncompleteCompletions opts),
             (case cap_textDocument (capabilities params) of
                None \<Rightarrow> False
              | Some td \<Rightarrow>
                  (case td_definition td of
                     None \<Rightarrow> False
                   | Some d \<Rightarrow> linkSupport d = Some True)))]"
  by (simp add: onInitialize_def Let_def captured_append captured_notifications
      split: option.split)

lemma registered_onInitialize:
  "registered (calls (onInitialize e s params)) =
     HTMLPlugin # CSSPlugin #
     (case initializationOptions params of
        None \<Rightarrow> []
      | Some opts \<Rightarrow>
          if environment opts \<noteq> JsString ''browser''
          then [AstroPlugin (workspaceUris params), TypeScriptPlugin (workspaceUris params)]
          else [])"
  by (simp add: onInitialize_def Let_def registered_append registered_notifications
      split: option.split)

lemma captured_other: "\<not> is_Initialize ev \<Longrightarrow> captured (calls (handle e s ev)) = []"
  by (cases ev)
     (simp_all add: is_Initialize_def onDidChangeConfiguration_def onDidOpenTextDocument_def
       onDidCloseTextDocument_def onDidChangeTextDocument_def onDidChangeWatchedFiles_def
       onRequest_def onCompletionResolve_def onDidSaveTextDocument_def
       onDidChangeNonAstroFile_def getEditsForFileRename_def documentChange_def
       documentClose_def onInitialized_def Let_def captured_getConfig captured_dispatch
       split: option.split)

lemma registered_other: "\<not> is_Initialize ev \<Longrightarrow> registered (calls (handle e s ev)) = []"
  by (cases ev)
     (simp_all add: is_Initialize_def onDidChangeConfiguration_def onDidOpenTextDocument_def
       onDidCloseTextDocument_def onDidChangeTextDocument_def onDidChangeWatchedFiles_def
       onRequest_def onCompletionResolve_def onDidSaveTextDocument_def
       onDidChangeNonAstroFile_def getEditsForFileRename_def documentChange_def
       documentClose_def onInitialized_def Let_def registered_getConfig registered_dispatch
       split: option.split)

lemma session_append:
  "snd (session s (xs @ ys)) = snd (session s xs) @ snd (session (fst (session s xs)) ys)"
  by (induction xs arbitrary: s) (auto simp: Let_def)

lemma captured_session_other:
  "list_all (\<lambda>x. \<not> is_Initialize (snd x)) evs \<Longrightarrow> captured (snd (session s evs)) = []"
  by (induction evs arbitrary: s)
     (auto simp: Let_def captured_append captured_other)

lemma registered_session_other:
  "list_all (\<lambda>x. \<not> is_Initialize (snd x)) evs \<Longrightarrow> registered (snd (session s evs)) = []"
  by (induction evs arbitrary: s)
     (auto simp: Let_def registered_append registered_other)

lemma session_Cons:
  "snd (session s ((e, ev) # rest)) =
     calls (handle e s ev) @ snd (session (state (handle e s ev)) rest)"
  by (simp add: Let_def)

section \<open>Diagnostics triggers\<close>

text \<open>
  C2, as stated: a full recompute (\<^verbatim>\<open>updateAll\<close>) is triggered after a configuration change,
  after a watched-file batch and after a document save. The handler of a configuration change
  makes no such call: with the initial server and pushed settings that have no astro value, the
  wrapper \<^verbatim>\<open>updateAllDiagnostics\<close> is not among its calls.
\<close>

theorem configuration_change_triggers_no_updateAll:
  "UpdateAllDiagnostics \<notin> set (calls (handle example_env startLanguageServer
     (DidChangeConfiguration (Some \<lparr>settings_astro = JsUndefined\<rparr>))))"
  by (simp add: onDidChangeConfiguration_def startLanguageServer_def)

text \<open>
  C2, amended: the wrapper \<^verbatim>\<open>updateAllDiagnostics\<close>, which runs \<^verbatim>\<open>diagnosticsManager.updateAll()\<close>
  through \<^verbatim>\<open>debounceThrottle\<close>, is invoked by the handler of every watched-file batch and of
  every document save; the handler of a configuration change never invokes it, in either
  delivery mode.
\<close>

theorem updateAll_after_watched_files_and_save:
  "UpdateAllDiagnostics \<in> set (calls (handle e s (DidChangeWatchedFiles changes))) \<and>
   UpdateAllDiagnostics \<in> set (calls (handle e s (DidSaveTextDocument params))) \<and>
   UpdateAllDiagnostics \<notin> set (calls (handle e s (DidChangeConfiguration change)))"
  by (auto simp: onDidChangeWatchedFiles_def onDidSaveTextDocument_def
      onDidChangeConfiguration_def Let_def split: option.split)

section \<open>Cancellation tokens\<close>

text \<open>
  C3, as stated: for every feature-request kind, the dispatch into the plugin host forwards a
  cancellation token. The hover handler calls \<^verbatim>\<open>pluginHost.doHover(textDocument, position)\<close>:
  the call has no token among its arguments.
\<close>

theorem hover_forwards_no_token:
  "map token_of (calls (handle example_env startLanguageServer
     (Request (Hover (TextDocumentIdentifier ''file:///a.astro'') \<lparr>line = 0, character = 0\<rparr>)
        (CancellationToken 1)))) = [None]"
  by (simp add: onRequest_def)

text \<open>
  C3, amended: every feature request makes exactly one plugin host call, and that call carries
  the request's cancellation token exactly for code actions, document symbols, semantic tokens
  (full and range), inlay hints and signature help; for hover, definition, folding ranges,
  completion, linked editing ranges, formatting, document colors, color presentations, tag close
  and rename the call carries no token.
\<close>

theorem token_forwarded_by_some_requests:
  "map token_of (calls (handle e s (Request req cancellationToken))) =
     [if forwards_token req then Some cancellationToken else None]"
  by (cases req) (simp_all add: onRequest_def)

section \<open>Closing a document\<close>

text \<open>
  C4: when \<^verbatim>\<open>documentClose\<close> fires for a document, the handler calls
  \<^verbatim>\<open>diagnosticsManager.removeDiagnostics(document)\<close> and then
  \<^verbatim>\<open>configManager.removeDocument(document.uri)\<close>, and nothing else; the server's own state is
  unchanged. On the collaborators as the specification describes them, the two calls publish an
  empty diagnostic set for the URI, stop tracking it and evict it from the configuration cache,
  and leave every other URI as it was.
\<close>

theorem documentClose_clears_and_evicts:
  "calls (handle e s (DocumentClose document)) =
     [DiagnosticsManager_removeDiagnostics document,
      ConfigManager_removeDocument (doc_uri document)] \<and>
   state (handle e s (DocumentClose document)) = s \<and>
   perform (calls (handle e s (DocumentClose document))) c =
     Some \<lparr>published = published c @ [(doc_uri document, [])],
           tracked = removeAll (doc_uri document) (tracked c),
           documentConfigs = (documentConfigs c)(doc_uri document := None)\<rparr>"
  by (simp add: documentClose_def removeDiagnostics_def removeDocument_def)

section \<open>Configuration changes\<close>

lemma configuration_change_modes:
  "(hasConfigurationCapability s \<longrightarrow>
      calls (handle e s (DidChangeConfiguration change)) =
        ConfigManager_updateConfig #
        map (\<lambda>document. ConfigManager_getConfig ''astro'' (doc_uri (snd document)))
          (getAllOpenedByClient e)) \<and>
   (\<not> hasConfigurationCapability s \<and> change = Some settings \<longrightarrow>
      calls (handle e s (DidChangeConfiguration change)) =
        [ConfigManager_updateGlobalConfig
           (if truthy (settings_astro settings) then settings_astro settings
            else JsObject (defaultLSConfig e))])"
  by (simp add: onDidChangeConfiguration_def)

lemma deliveries_getConfig:
  "deliveries (map (\<lambda>document. ConfigManager_getConfig ns (doc_uri (snd document))) ds) = []"
  by (induction ds) simp_all

lemma one_delivery_mode:
  "hasConfigurationCapability s \<or> change \<noteq> None \<Longrightarrow>
   deliveries (calls (handle e s (DidChangeConfiguration change))) =
     [if hasConfigurationCapability s then Dynamic else Pushed]"
  by (auto simp: onDidChangeConfiguration_def deliveries_getConfig)

text \<open>
  C5: on every configuration-change signal exactly one of two delivery modes runs, chosen by
  \<^verbatim>\<open>hasConfigurationCapability\<close>: with the capability \<^verbatim>\<open>configManager.updateConfig()\<close> and
  then \<^verbatim>\<open>configManager.getConfig('astro', uri)\<close> for every document opened by the client,
  without it one call of \<^verbatim>\<open>configManager.updateGlobalConfig\<close> with the pushed settings. That
  holds with the capability, and without it when the settings are not null
  (\<open>configuration_change_modes\<close>, \<open>one_delivery_mode\<close>). When the client has no configuration
  capability and the signal's settings are null, the handler raises before it calls the
  configuration manager: neither mode delivers.
\<close>

theorem null_settings_deliver_in_neither_mode:
  "deliveries (calls (handle example_env \<lparr>hasConfigurationCapability = False\<rparr>
     (DidChangeConfiguration None))) = [] \<and>
   result (handle example_env \<lparr>hasConfigurationCapability = False\<rparr>
     (DidChangeConfiguration None)) = Inl TypeError"
  by (simp add: onDidChangeConfiguration_def)

lemma pushed_settings_without_astro:
  "\<not> hasConfigurationCapability s \<Longrightarrow> \<not> truthy (settings_astro settings) \<Longrightarrow>
   handle e s (DidChangeConfiguration (Some settings)) =
     \<lparr>state = s, calls = [ConfigManager_updateGlobalConfig (JsObject (defaultLSConfig e))],
      result = Inr Void\<rparr>"
  by (simp add: onDidChangeConfiguration_def)

text \<open>
  C8: a pushed configuration change that carries no astro settings falls back to
  \<^verbatim>\<open>defaultLSConfig\<close> instead of failing. That holds when the settings are an object without an
  astro value (\<open>pushed_settings_without_astro\<close>). When the client has no configuration
  capability and the notification's settings are null, \<^verbatim>\<open>change.settings.astro\<close> raises: the
  handler fails and \<^verbatim>\<open>updateGlobalConfig\<close> is not called.
\<close>

theorem pushed_null_settings_raise:
  "result (handle example_env startLanguageServer (DidChangeConfiguration None)) = Inl TypeError \<and>
   calls (handle example_env startLanguageServer (DidChangeConfiguration None)) = []"
  by (simp add: onDidChangeConfiguration_def startLanguageServer_def)

section \<open>Initialization\<close>

text \<open>
  C6: in a session with one initialize request, the plugin host's options are captured exactly
  once, by that request: \<^verbatim>\<open>filterIncompleteCompletions\<close> is the negation of the
  \<^verbatim>\<open>dontFilterIncompleteCompletions\<close> initialization option (true when the options or the
  option are absent) and \<^verbatim>\<open>definitionLinkSupport\<close> is true exactly when the client's
  capabilities have a text document part whose definition part has \<^verbatim>\<open>linkSupport\<close> true. No
  event before or after it calls \<^verbatim>\<open>pluginHost.initialize\<close>.
\<close>

theorem options_captured_once:
  assumes "list_all (\<lambda>x. \<not> is_Initialize (snd x)) pre"
    and "list_all (\<lambda>x. \<not> is_Initialize (snd x)) post"
  shows "captured (snd (session s (pre @ [(e, Initialize params)] @ post))) =
           [(\<not> truthy (case initializationOptions params of
                         None \<Rightarrow> JsUndefined
                       | Some opts \<Rightarrow> dontFilterIncompleteCompletions opts),
             (case cap_textDocument (capabilities params) of
                None \<Rightarrow> False
              | Some td \<Rightarrow>
                  (case td_definition td of
                     None \<Rightarrow> False
                   | Some d \<Rightarrow> linkSupport d = Some True)))]"
  using assms
  by (simp add: session_append session_Cons captured_append captured_session_other
      captured_onInitialize del: session.simps)

theorem options_captured_once_witness:
  "list_all (\<lambda>x. \<not> is_Initialize (snd x)) [(example_env, DidSaveTextDocument ())] \<and>
   list_all (\<lambda>x. \<not> is_Initialize (snd x)) [(example_env, Initialized)] \<and>
   captured (snd (session startLanguageServer
     ([(example_env, DidSaveTextDocument ())] @
      [(example_env, Initialize (example_params
         (Some \<lparr>dontFilterIncompleteCompletions = JsBoolean True,
                environment = JsString ''browser''\<rparr>)))] @
      [(example_env, Initialized)]))) = [(False, False)] \<and>
   captured (snd (session startLanguageServer
     ([(example_env, DidSaveTextDocument ())] @
      [(example_env, Initialize (example_params_linkSupport (Some True)))] @
      [(example_env, Initialized)]))) = [(True, True)] \<and>
   captured (snd (session startLanguageServer
     ([(example_env, DidSaveTextDocument ())] @
      [(example_env, Initialize (example_params_linkSupport (Some False)))] @
      [(example_env, Initialized)]))) = [(True, False)]"
  using options_captured_once
          [where pre = "[(example_env, DidSaveTextDocument ())]"
             and post = "[(example_env, Initialized)]" and s = startLanguageServer
             and e = example_env
             and params = "example_params
               (Some \<lparr>dontFilterIncompleteCompletions = JsBoolean True,
                      environment = JsString ''browser''\<rparr>)"]
        options_captured_once
          [where pre = "[(example_env, DidSaveTextDocument ())]"
             and post = "[(example_env, Initialized)]" and s = startLanguageServer
             and e = example_env and params = "example_params_linkSupport (Some True)"]
        options_captured_once
          [where pre = "[(example_env, DidSaveTextDocument ())]"
             and post = "[(example_env, Initialized)]" and s = startLanguageServer
             and e = example_env and params = "example_params_linkSupport (Some False)"]
  by (simp add: is_Initialize_def example_params_def example_params_linkSupport_def)

text \<open>
  C7: in a session with one initialize request, the provider registry is the list registered
  by that request: the HTML plugin, then the CSS plugin, then, when the initialization options
  are present and their environment is not the string browser, the Astro plugin and the
  TypeScript plugin, in that order. No event before or after it calls
  \<^verbatim>\<open>pluginHost.registerPlugin\<close>.
\<close>

theorem registry_built_in_initialize:
  assumes "list_all (\<lambda>x. \<not> is_Initialize (snd x)) pre"
    and "list_all (\<lambda>x. \<not> is_Initialize (snd x)) post"
  shows "registered (snd (session s (pre @ [(e, Initialize params)] @ post))) =
     HTMLPlugin # CSSPlugin #
     (case initializationOptions params of
        None \<Rightarrow> []
      | Some opts \<Rightarrow>
          if environment opts \<noteq> JsString ''browser''
          then [AstroPlugin (workspaceUris params), TypeScriptPlugin (workspaceUris params)]
          else [])"
  using assms
  by (simp add: session_append session_Cons registered_append registered_session_other
      registered_onInitialize del: session.simps)

theorem registry_built_in_initialize_witness:
  "list_all (\<lambda>x. \<not> is_Initialize (snd x)) [(example_env, DidSaveTextDocument ())] \<and>
   list_all (\<lambda>x. \<not> is_Initialize (snd x)) [(example_env, Initialized)] \<and>
   registered (snd (session startLanguageServer
     ([(example_env, DidSaveTextDocument ())] @
      [(example_env, Initialize (example_params
         (Some \<lparr>dontFilterIncompleteCompletions = JsUndefined,
                environment = JsString ''node''\<rparr>)))] @
      [(example_env, Initialized)]))) =
     [HTMLPlugin, CSSPlugin, AstroPlugin [''file:///w''], TypeScriptPlugin [''file:///w'']]"
  using registry_built_in_initialize
          [where pre = "[(example_env, DidSaveTextDocument ())]"
             and post = "[(example_env, Initialized)]" and s = startLanguageServer
             and e = example_env
             and params = "example_params
               (Some \<lparr>dontFilterIncompleteCompletions = JsUndefined,
                      environment = JsString ''node''\<rparr>)"]
  by (simp add: is_Initialize_def workspaceUris_def example_params_def)

lemma astro_typescript_registered_iff:
  "initializationOptions params = Some opts \<Longrightarrow>
   registered (calls (handle e s (Initialize params))) =
     (if environment opts \<noteq> JsString ''browser''
      then [HTMLPlugin, CSSPlugin,
            AstroPlugin (workspaceUris params), TypeScriptPlugin (workspaceUris params)]
      else [HTMLPlugin, CSSPlugin])"
  by (simp add: registered_onInitialize)

text \<open>
  C10: the Astro and TypeScript plugins are registered if and only if the environment
  initialization option is not browser. That holds when the initialization options are present
  (\<open>astro_typescript_registered_iff\<close>). When the initialize request has no initialization
  options, the environment is not browser, yet line 79 raises after the HTML and CSS plugins
  are registered: the request fails and the Astro and TypeScript plugins are not registered.
\<close>

theorem initialize_without_options_raises:
  "result (handle example_env startLanguageServer (Initialize (example_params None))) =
     Inl TypeError \<and>
   registered (calls (handle example_env startLanguageServer (Initialize (example_params None)))) =
     [HTMLPlugin, CSSPlugin]"
  by (simp add: onInitialize_def example_params_def example_env_def workspaceUris_def
      checkAstroVersion_def Let_def)

section \<open>Resolving a completion item\<close>

text \<open>
  C9: a completion item whose \<^verbatim>\<open>data\<close> is absent or falsy is returned as it is and no plugin
  host call is made; an item that carries data goes to \<^verbatim>\<open>pluginHost.resolveCompletion\<close> with
  that data, and the handler returns what that call returns.
\<close>

theorem onCompletionResolve_routes_on_data:
  "(\<not> truthy (data completionItem) \<longrightarrow>
      calls (handle e s (CompletionResolve completionItem)) = [] \<and>
      result (handle e s (CompletionResolve completionItem)) = Inr (ReturnedItem completionItem)) \<and>
   (truthy (data completionItem) \<longrightarrow>
      calls (handle e s (CompletionResolve completionItem)) =
        [PluginHost_resolveCompletion (data completionItem) completionItem] \<and>
      result (handle e s (CompletionResolve completionItem)) =
        Inr (ResultOf (PluginHost_resolveCompletion (data completionItem) completionItem)))"
  by (simp add: onCompletionResolve_def Let_def)

theorem onCompletionResolve_routes_on_data_witness:
  "\<not> truthy (data \<lparr>label = ''div'', data = JsUndefined, item_fields = ()\<rparr>) \<and>
   calls (handle example_env startLanguageServer
     (CompletionResolve \<lparr>label = ''div'', data = JsUndefined, item_fields = ()\<rparr>)) = [] \<and>
   result (handle example_env startLanguageServer
     (CompletionResolve \<lparr>label = ''div'', data = JsUndefined, item_fields = ()\<rparr>)) =
     Inr (ReturnedItem \<lparr>label = ''div'', data = JsUndefined, item_fields = ()\<rparr>) \<and>
   truthy (data \<lparr>label = ''div'',
     data = JsObject (TextDocumentIdentifier ''file:///a.astro''), item_fields = ()\<rparr>) \<and>
   calls (handle example_env startLanguageServer
     (CompletionResolve \<lparr>label = ''div'',
        data = JsObject (TextDocumentIdentifier ''file:///a.astro''), item_fields = ()\<rparr>)) =
     [PluginHost_resolveCompletion (JsObject (TextDocumentIdentifier ''file:///a.astro''))
        \<lparr>label = ''div'', data = JsObject (TextDocumentIdentifier ''file:///a.astro''),
         item_fields = ()\<rparr>]"
  using onCompletionResolve_routes_on_data
          [of "\<lparr>label = ''div'', data = JsUndefined, item_fields = ()\<rparr>"
              example_env startLanguageServer]
        onCompletionResolve_routes_on_data
          [of "\<lparr>label = ''div'',
                data = JsObject (TextDocumentIdentifier ''file:///a.astro''), item_fields = ()\<rparr>"
              example_env startLanguageServer]
  by simp

section \<open>Coalescing of document changes\<close>

lemma filter_state_other:
  "doc_uri d \<noteq> k \<Longrightarrow>
   filter (\<lambda>p. doc_uri (args p) = k) (map (\<lambda>p. snd (on_trigger ms t d p)) sched) =
   filter (\<lambda>p. doc_uri (args p) = k) sched"
  by (induction sched) (auto simp: on_trigger_def)

lemma filter_out_other:
  "doc_uri d \<noteq> k \<Longrightarrow>
   for_document k (concat (map (\<lambda>p. fst (on_trigger ms t d p)) sched)) = []"
  by (induction sched) (auto simp: on_trigger_def for_document_def)

lemma filter_state_same:
  "filter (\<lambda>p. doc_uri (args p) = doc_uri d) (map (\<lambda>p. snd (on_trigger ms t d p)) sched) =
   map (\<lambda>p. snd (on_trigger ms t d p)) (filter (\<lambda>p. doc_uri (args p) = doc_uri d) sched)"
  by (induction sched) (auto simp: on_trigger_def)

lemma filter_out_same:
  "for_document (doc_uri d) (concat (map (\<lambda>p. fst (on_trigger ms t d p)) sched)) =
   concat (map (\<lambda>p. fst (on_trigger ms t d p)) (filter (\<lambda>p. doc_uri (args p) = doc_uri d) sched))"
  by (induction sched) (auto simp: on_trigger_def for_document_def)

lemma for_document_Nil: "for_document k [] = []"
  by (simp add: for_document_def)

lemma key_present_filter:
  "(k \<in> set (map (\<lambda>p. doc_uri (args p)) (filter (\<lambda>p. doc_uri (args p) = k) sched))) =
   (k \<in> set (map (\<lambda>p. doc_uri (args p)) sched))"
  by (induction sched) auto

lemma trigger_other:
  assumes "doc_uri (snd tr) \<noteq> k"
  shows "for_document k (fst (trigger ms tr sched)) = []"
    and "filter (\<lambda>p. doc_uri (args p) = k) (snd (trigger ms tr sched)) =
         filter (\<lambda>p. doc_uri (args p) = k) sched"
  using assms
  by (simp_all add: trigger_def filter_state_other filter_out_other for_document_Nil)

lemma trigger_same:
  assumes "doc_uri (snd tr) = k"
  shows "for_document k (fst (trigger ms tr sched)) =
           fst (trigger ms tr (filter (\<lambda>p. doc_uri (args p) = k) sched))"
    and "filter (\<lambda>p. doc_uri (args p) = k) (snd (trigger ms tr sched)) =
         snd (trigger ms tr (filter (\<lambda>p. doc_uri (args p) = k) sched))"
  using filter_state_same [of "snd tr" ms "fst tr" sched]
    filter_out_same [of "snd tr" ms "fst tr" sched]
    key_present_filter [of k sched]
  unfolding assms [symmetric] trigger_def
  by (simp_all add: for_document_Nil)

lemma for_document_append:
  "for_document k (xs @ ys) = for_document k xs @ for_document k ys"
  by (simp add: for_document_def)

lemma run_for_document:
  "for_document k (run ms sched trs) =
   run ms (filter (\<lambda>p. doc_uri (args p) = k) sched) (for_document k trs)"
proof (induction trs arbitrary: sched)
  case Nil
  show ?case by (simp add: for_document_def filter_map comp_def)
next
  case (Cons tr trs)
  show ?case
  proof (cases "doc_uri (snd tr) = k")
    case True
    have "for_document k (tr # trs) = tr # for_document k trs"
      using True by (simp add: for_document_def)
    then show ?thesis
      using Cons.IH [of "snd (trigger ms tr sched)"] trigger_same [OF True, of ms sched]
      by (simp add: for_document_append)
  next
    case False
    have "for_document k (tr # trs) = for_document k trs"
      using False by (simp add: for_document_def)
    then show ?thesis
      using Cons.IH [of "snd (trigger ms tr sched)"] trigger_other [OF False, of ms sched]
      by (simp add: for_document_append)
  qed
qed


lemma deadline_since: "since p \<le> latest p \<Longrightarrow> deadline ms p = since p + ms"
  by (simp add: deadline_def)

lemma trigger_single:
  "doc_uri (snd tr) = doc_uri (args p) \<Longrightarrow>
   trigger ms tr [p] =
     (fst (on_trigger ms (fst tr) (snd tr) p), [snd (on_trigger ms (fst tr) (snd tr) p)])"
  by (simp add: trigger_def)

lemma trigger_empty: "trigger ms tr [] = ([], [Scheduled (fst tr) (fst tr) (snd tr)])"
  by (simp add: trigger_def)

lemma pending_fires:
  assumes "\<forall>tr\<in>set trs. doc_uri (snd tr) = doc_uri (args p)"
    and "since p \<le> latest p"
    and "\<forall>tr\<in>set trs. latest p \<le> fst tr"
    and "sorted (map fst trs)"
  shows "\<exists>d. (since p + ms, d) \<in> set (run ms [p] trs) \<and> doc_uri d = doc_uri (args p)"
  using assms
proof (induction trs arbitrary: p)
  case Nil
  then show ?case by (simp add: deadline_since)
next
  case (Cons tr trs)
  have key: "doc_uri (snd tr) = doc_uri (args p)" using Cons.prems(1) by simp
  show ?case
  proof (cases "deadline ms p \<le> fst tr")
    case True
    then have "(since p + ms, args p) \<in> set (run ms [p] (tr # trs))"
      using key Cons.prems(2) by (simp add: trigger_single on_trigger_def deadline_since)
    then show ?thesis by blast
  next
    case False
    let ?q = "Scheduled (since p) (fst tr) (snd tr)"
    have step: "run ms [p] (tr # trs) = run ms [?q] trs"
      using False key by (simp add: trigger_single on_trigger_def)
    have "\<exists>d. (since ?q + ms, d) \<in> set (run ms [?q] trs) \<and> doc_uri d = doc_uri (args ?q)"
    proof (rule Cons.IH)
      show "\<forall>x\<in>set trs. doc_uri (snd x) = doc_uri (args ?q)"
        using Cons.prems(1) by simp
      show "since ?q \<le> latest ?q" using Cons.prems(2,3) by simp
      show "\<forall>x\<in>set trs. latest ?q \<le> fst x" using Cons.prems(4) by auto
      show "sorted (map fst trs)" using Cons.prems(4) by simp
    qed
    then show ?thesis using step key by simp
  qed
qed

lemma served_within_interval_pending:
  assumes "\<forall>tr\<in>set trs. doc_uri (snd tr) = doc_uri (args p)"
    and "since p \<le> latest p"
    and "\<forall>tr\<in>set trs. latest p \<le> fst tr"
    and "sorted (map fst trs)"
    and "0 < ms"
    and "tr \<in> set trs"
  shows "\<exists>r\<in>set (run ms [p] trs).
           doc_uri (snd r) = doc_uri (args p) \<and> fst tr < fst r \<and> fst r \<le> fst tr + ms"
  using assms
proof (induction trs arbitrary: p)
  case Nil
  then show ?case by simp
next
  case (Cons tr0 trs)
  have key: "doc_uri (snd tr0) = doc_uri (args p)" using Cons.prems(1) by simp
  define q where "q = snd (on_trigger ms (fst tr0) (snd tr0) p)"
  have run_eq: "run ms [p] (tr0 # trs) =
      fst (on_trigger ms (fst tr0) (snd tr0) p) @ run ms [q] trs"
    using key by (simp add: trigger_single q_def)
  have q_args: "args q = snd tr0" and q_latest: "latest q = fst tr0"
    using key by (simp_all add: q_def on_trigger_def)
  have q_since: "since q \<le> fst tr0" "fst tr0 < since q + ms"
    using key Cons.prems(2,3,5) by (auto simp: q_def on_trigger_def deadline_since)
  have q_keys: "\<forall>x\<in>set trs. doc_uri (snd x) = doc_uri (args q)"
    using Cons.prems(1) q_args by simp
  have q_later: "\<forall>x\<in>set trs. latest q \<le> fst x"
    using Cons.prems(4) q_latest by auto
  have q_sorted: "sorted (map fst trs)" using Cons.prems(4) by simp
  show ?case
  proof (cases "tr = tr0")
    case True
    obtain d where "(since q + ms, d) \<in> set (run ms [q] trs)" "doc_uri d = doc_uri (args q)"
      using pending_fires [OF q_keys _ q_later q_sorted, of ms] q_since(1) q_latest by auto
    then have "(since q + ms, d) \<in> set (run ms [p] (tr0 # trs))"
      and "doc_uri (snd (since q + ms, d)) = doc_uri (args p)"
      and "fst tr < fst (since q + ms, d)" and "fst (since q + ms, d) \<le> fst tr + ms"
      using True run_eq q_since q_args key by simp_all
    then show ?thesis by blast
  next
    case False
    then have "tr \<in> set trs" using Cons.prems(6) by simp
    then obtain r where "r \<in> set (run ms [q] trs)"
        "doc_uri (snd r) = doc_uri (args q)" "fst tr < fst r" "fst r \<le> fst tr + ms"
      using Cons.IH [OF q_keys _ q_later q_sorted Cons.prems(5)] q_since(1) q_latest by auto
    then have "r \<in> set (run ms [p] (tr0 # trs))" and "doc_uri (snd r) = doc_uri (args p)"
      using run_eq q_args key by simp_all
    then show ?thesis using \<open>fst tr < fst r\<close> \<open>fst r \<le> fst tr + ms\<close> by blast
  qed
qed

lemma served_within_interval_idle:
  assumes "\<forall>tr\<in>set trs. doc_uri (snd tr) = k"
    and "sorted (map fst trs)"
    and "0 < ms"
    and "tr \<in> set trs"
  shows "\<exists>r\<in>set (run ms [] trs).
           doc_uri (snd r) = k \<and> fst tr < fst r \<and> fst r \<le> fst tr + ms"
proof (cases trs)
  case Nil
  then show ?thesis using assms(4) by simp
next
  case (Cons tr0 rest)
  let ?q = "Scheduled (fst tr0) (fst tr0) (snd tr0)"
  have run_eq: "run ms [] trs = run ms [?q] rest"
    using Cons by (simp add: trigger_empty)
  have k0: "doc_uri (snd tr0) = k" using assms(1) Cons by simp
  have q_keys: "\<forall>x\<in>set rest. doc_uri (snd x) = doc_uri (args ?q)"
    using assms(1) Cons by simp
  have q_later: "\<forall>x\<in>set rest. latest ?q \<le> fst x"
    using assms(2) Cons by auto
  have q_sorted: "sorted (map fst rest)" using assms(2) Cons by simp
  show ?thesis
  proof (cases "tr = tr0")
    case True
    obtain d where "(since ?q + ms, d) \<in> set (run ms [?q] rest)" "doc_uri d = doc_uri (args ?q)"
      using pending_fires [OF q_keys _ q_later q_sorted, of ms] by auto
    then have "(fst tr0 + ms, d) \<in> set (run ms [] trs)"
      and "doc_uri (snd (fst tr0 + ms, d)) = k"
      and "fst tr < fst (fst tr0 + ms, d)" and "fst (fst tr0 + ms, d) \<le> fst tr + ms"
      using True run_eq k0 assms(3) by simp_all
    then show ?thesis by blast
  next
    case False
    then have in_rest: "tr \<in> set rest" using assms(4) Cons by simp
    have "\<exists>r\<in>set (run ms [?q] rest).
            doc_uri (snd r) = doc_uri (args ?q) \<and> fst tr < fst r \<and> fst r \<le> fst tr + ms"
      by (rule served_within_interval_pending [OF q_keys _ q_later q_sorted assms(3) in_rest])
         simp
    then obtain r where "r \<in> set (run ms [?q] rest)"
        "doc_uri (snd r) = doc_uri (args ?q)" "fst tr < fst r" "fst r \<le> fst tr + ms"
      by blast
    then have "r \<in> set (run ms [] trs)" and "doc_uri (snd r) = k"
      using run_eq k0 by simp_all
    then show ?thesis using \<open>fst tr < fst r\<close> \<open>fst r \<le> fst tr + ms\<close> by blast
  qed
qed

lemma one_recompute_pending:
  assumes "\<forall>tr\<in>set trs. doc_uri (snd tr) = doc_uri (args p)"
    and "since p \<le> latest p"
    and "\<forall>tr\<in>set trs. latest p \<le> fst tr"
    and "sorted (map fst trs)"
    and "\<forall>tr\<in>set trs. fst tr < since p + ms"
  shows "length (run ms [p] trs) = 1"
  using assms
proof (induction trs arbitrary: p)
  case Nil
  then show ?case by simp
next
  case (Cons tr trs)
  have key: "doc_uri (snd tr) = doc_uri (args p)" using Cons.prems(1) by simp
  let ?q = "Scheduled (since p) (fst tr) (snd tr)"
  have "\<not> deadline ms p \<le> fst tr"
    using Cons.prems(2,5) by (simp add: deadline_since)
  then have step: "run ms [p] (tr # trs) = run ms [?q] trs"
    using key by (simp add: trigger_single on_trigger_def)
  have "length (run ms [?q] trs) = 1"
  proof (rule Cons.IH)
    show "\<forall>x\<in>set trs. doc_uri (snd x) = doc_uri (args ?q)" using Cons.prems(1) by simp
    show "since ?q \<le> latest ?q" using Cons.prems(2,3) by simp
    show "\<forall>x\<in>set trs. latest ?q \<le> fst x" using Cons.prems(4) by auto
    show "sorted (map fst trs)" using Cons.prems(4) by simp
    show "\<forall>x\<in>set trs. fst x < since ?q + ms" using Cons.prems(5) by simp
  qed
  then show ?case using step by simp
qed

lemma one_recompute_idle:
  assumes "\<forall>tr\<in>set trs. doc_uri (snd tr) = k"
    and "sorted (map fst trs)"
    and "\<forall>tr\<in>set trs. \<forall>tr'\<in>set trs. fst tr' < fst tr + ms"
  shows "length (run ms [] trs) \<le> 1"
proof (cases trs)
  case Nil
  then show ?thesis by simp
next
  case (Cons tr0 rest)
  let ?q = "Scheduled (fst tr0) (fst tr0) (snd tr0)"
  have "length (run ms [?q] rest) = 1"
  proof (rule one_recompute_pending)
    show "\<forall>x\<in>set rest. doc_uri (snd x) = doc_uri (args ?q)" using assms(1) Cons by simp
    show "since ?q \<le> latest ?q" by simp
    show "\<forall>x\<in>set rest. latest ?q \<le> fst x" using assms(2) Cons by auto
    show "sorted (map fst rest)" using assms(2) Cons by simp
    show "\<forall>x\<in>set rest. fst x < since ?q + ms" using assms(3) Cons by simp
  qed
  then show ?thesis using Cons by (simp add: trigger_empty)
qed


lemma update_requests_append:
  "update_requests (xs @ ys) = update_requests xs @ update_requests ys"
  by (induction xs rule: update_requests.induct) simp_all

lemma update_requests_checkAstroVersion: "update_requests (checkAstroVersion e uri) = []"
  by (simp add: checkAstroVersion_def Let_def)

lemma update_requests_notifications:
  "update_requests (concat (map (checkAstroVersion e) uris)) = []"
  by (induction uris) (simp_all add: update_requests_append update_requests_checkAstroVersion)

lemma update_requests_getConfig:
  "update_requests (map (\<lambda>document. ConfigManager_getConfig ns (doc_uri (snd document))) ds) = []"
  by (induction ds) simp_all

lemma update_requests_dispatch: "update_requests [dispatch req tok] = []"
  by (cases req) simp_all

lemma update_requests_handle:
  "update_requests (calls (handle e s ev)) =
     (case ev of DocumentChange document \<Rightarrow> [document] | other \<Rightarrow> [])"
  by (cases ev)
     (simp_all add: onInitialize_def onDidChangeConfiguration_def onDidOpenTextDocument_def
       onDidCloseTextDocument_def onDidChangeTextDocument_def onDidChangeWatchedFiles_def
       onRequest_def onCompletionResolve_def onDidSaveTextDocument_def
       onDidChangeNonAstroFile_def getEditsForFileRename_def documentChange_def
       documentClose_def onInitialized_def Let_def update_requests_getConfig
       update_requests_dispatch update_requests_append update_requests_notifications
       split: option.split)

lemma triggers_Cons:
  "documentChange_triggers s ((t, e, ev) # rest) =
     (case ev of DocumentChange document \<Rightarrow> [(t, document)] | other \<Rightarrow> []) @
     documentChange_triggers (state (handle e s ev)) rest"
  by (simp add: Let_def update_requests_handle del: handle.simps split: event.split)

lemma for_document_Cons:
  "for_document k (r # rs) =
     (if doc_uri (snd r) = k then r # for_document k rs else for_document k rs)"
  by (simp add: for_document_def)

lemma changes_Cons:
  "changes_of k ((t, e, ev) # evs) =
     (case ev of
        DocumentChange document \<Rightarrow>
          if doc_uri document = k then (t, e, ev) # changes_of k evs else changes_of k evs
      | other \<Rightarrow> changes_of k evs)"
  by (simp add: changes_of_def split: event.split)

lemma for_document_triggers:
  "for_document k (documentChange_triggers s evs) = documentChange_triggers s' (changes_of k evs)"
proof (induction evs arbitrary: s s')
  case Nil
  show ?case by (simp add: for_document_def changes_of_def)
next
  case (Cons x evs)
  obtain t e ev where x: "x = (t, e, ev)" by (cases x) auto
  show ?case
    unfolding x
    using Cons.IH [of "state (handle e s ev)" "state (handle e s' ev)"]
      Cons.IH [of "state (handle e s ev)" s']
    by (cases ev)
       (simp_all add: changes_Cons triggers_Cons for_document_Cons for_document_Nil
          del: documentChange_triggers.simps handle.simps)
qed

lemma triggers_sorted:
  "sorted (map fst evs) \<Longrightarrow> sorted (map fst (documentChange_triggers s evs))"
proof (induction evs arbitrary: s)
  case Nil
  show ?case by simp
next
  case (Cons x evs)
  obtain t e ev where x: "x = (t, e, ev)" by (cases x) auto
  have "\<forall>y\<in>set (documentChange_triggers s' evs). \<exists>z\<in>set evs. fst y = fst z" for s'
  proof (induction evs arbitrary: s')
    case Nil
    show ?case by simp
  next
    case (Cons y evs)
    obtain t' e' ev' where y: "y = (t', e', ev')" by (cases y) auto
    show ?case
      using Cons [of "state (handle e' s' ev')"]
      by (auto simp: y triggers_Cons split: event.split
          simp del: documentChange_triggers.simps handle.simps)
  qed
  then have later: "\<forall>y\<in>set (documentChange_triggers s' evs). t \<le> fst y" for s'
    using Cons.prems x by fastforce
  show ?case
    using Cons.IH [of "state (handle e s ev)"] Cons.prems later [of "state (handle e s ev)"]
    by (auto simp: x triggers_Cons sorted_append split: event.split
        simp del: documentChange_triggers.simps handle.simps)
qed

lemma triggers_all_changes:
  "(t, document) \<in> set (documentChange_triggers s evs) \<longleftrightarrow>
   (\<exists>e. (t, e, DocumentChange document) \<in> set evs)"
proof (induction evs arbitrary: s)
  case Nil
  show ?case by simp
next
  case (Cons x evs)
  obtain t' e' ev' where x: "x = (t', e', ev')" by (cases x) auto
  show ?case
    using Cons [of "state (handle e' s ev')"]
    by (cases ev')
       (auto simp: x triggers_Cons simp del: documentChange_triggers.simps handle.simps)
qed


lemma changes_idem: "changes_of k (changes_of k evs) = changes_of k evs"
  by (simp add: changes_of_def)

lemma updates_run:
  "updates_of k s evs = map fst (run 1000 [] (documentChange_triggers s' (changes_of k evs)))"
  using run_for_document [of k 1000 "[]" "documentChange_triggers s evs"]
    for_document_triggers [of k s evs s']
  by (simp add: updates_of_def diagnostics_updates_def debounceThrottle_def)

lemma change_triggers_keys:
  "\<forall>tr\<in>set (documentChange_triggers s (changes_of k evs)). doc_uri (snd tr) = k"
proof -
  have "documentChange_triggers s (changes_of k evs) =
      for_document k (documentChange_triggers s evs)"
    by (rule for_document_triggers [symmetric])
  then show ?thesis by (simp add: for_document_def)
qed

lemma change_triggers_sorted:
  "sorted (map fst evs) \<Longrightarrow> sorted (map fst (documentChange_triggers s (changes_of k evs)))"
  by (rule triggers_sorted) (simp add: changes_of_def sorted_filter)

lemma changes_are_DocumentChange:
  "x \<in> set (changes_of k evs) \<Longrightarrow> \<exists>document. snd (snd x) = DocumentChange document"
  by (auto simp: changes_of_def split: event.splits)

lemma dropWhile_less_ge:
  "sorted ts \<Longrightarrow> u \<in> set (dropWhile (\<lambda>u. u < c) ts) \<Longrightarrow> (c::nat) \<le> u"
  by (induction ts) (auto split: if_splits)

lemma window_starts_subset: "u \<in> set (window_starts ms ts) \<Longrightarrow> u \<in> set ts"
proof (induction ms ts rule: window_starts.induct)
  case (1 ms)
  then show ?case by simp
next
  case (2 ms t ts)
  then show ?case using set_dropWhileD by fastforce
qed

lemma window_starts_spaced:
  "sorted ts \<Longrightarrow> sorted_wrt (\<lambda>a b. a + ms \<le> b) (window_starts ms ts)"
proof (induction ms ts rule: window_starts.induct)
  case (1 ms)
  show ?case by simp
next
  case (2 ms t ts)
  have srt: "sorted (dropWhile (\<lambda>u. u < t + ms) ts)"
    using "2.prems" by (simp add: sorted_dropWhile)
  have "t + ms \<le> u" if u: "u \<in> set (window_starts ms (dropWhile (\<lambda>u. u < t + ms) ts))" for u
    using window_starts_subset [OF u] "2.prems" dropWhile_less_ge [of ts u "t + ms"] by simp
  then show ?case using "2.IH" [OF srt] by simp
qed

lemma run_times_pending:
  assumes "\<forall>tr\<in>set trs. doc_uri (snd tr) = doc_uri (args p)"
    and "since p \<le> latest p"
    and "\<forall>tr\<in>set trs. latest p \<le> fst tr"
    and "sorted (map fst trs)"
  shows "map fst (run ms [p] trs) =
           (since p + ms) #
           map (\<lambda>t. t + ms)
             (window_starts ms (dropWhile (\<lambda>u. u < since p + ms) (map fst trs)))"
  using assms
proof (induction trs arbitrary: p)
  case Nil
  then show ?case by (simp add: deadline_since)
next
  case (Cons tr trs)
  have key: "doc_uri (snd tr) = doc_uri (args p)" using Cons.prems(1) by simp
  have dl: "deadline ms p = since p + ms" using Cons.prems(2) by (rule deadline_since)
  show ?case
  proof (cases "since p + ms \<le> fst tr")
    case True
    let ?q = "Scheduled (fst tr) (fst tr) (snd tr)"
    have step: "run ms [p] (tr # trs) = (since p + ms, args p) # run ms [?q] trs"
      using True key dl by (simp add: trigger_single on_trigger_def)
    have "map fst (run ms [?q] trs) =
        (since ?q + ms) #
        map (\<lambda>t. t + ms) (window_starts ms (dropWhile (\<lambda>u. u < since ?q + ms) (map fst trs)))"
    proof (rule Cons.IH)
      show "\<forall>x\<in>set trs. doc_uri (snd x) = doc_uri (args ?q)" using Cons.prems(1) by simp
      show "since ?q \<le> latest ?q" by simp
      show "\<forall>x\<in>set trs. latest ?q \<le> fst x" using Cons.prems(4) by auto
      show "sorted (map fst trs)" using Cons.prems(4) by simp
    qed
    then show ?thesis using step True by simp
  next
    case False
    let ?q = "Scheduled (since p) (fst tr) (snd tr)"
    have step: "run ms [p] (tr # trs) = run ms [?q] trs"
      using False key dl by (simp add: trigger_single on_trigger_def)
    have "map fst (run ms [?q] trs) =
        (since ?q + ms) #
        map (\<lambda>t. t + ms) (window_starts ms (dropWhile (\<lambda>u. u < since ?q + ms) (map fst trs)))"
    proof (rule Cons.IH)
      show "\<forall>x\<in>set trs. doc_uri (snd x) = doc_uri (args ?q)" using Cons.prems(1) by simp
      show "since ?q \<le> latest ?q" using Cons.prems(2,3) by simp
      show "\<forall>x\<in>set trs. latest ?q \<le> fst x" using Cons.prems(4) by auto
      show "sorted (map fst trs)" using Cons.prems(4) by simp
    qed
    then show ?thesis using step False by simp
  qed
qed

lemma run_times_idle:
  assumes "\<forall>tr\<in>set trs. doc_uri (snd tr) = k"
    and "sorted (map fst trs)"
  shows "map fst (run ms [] trs) = map (\<lambda>t. t + ms) (window_starts ms (map fst trs))"
proof (cases trs)
  case Nil
  then show ?thesis by simp
next
  case (Cons tr0 rest)
  let ?q = "Scheduled (fst tr0) (fst tr0) (snd tr0)"
  have "map fst (run ms [?q] rest) =
      (since ?q + ms) #
      map (\<lambda>t. t + ms) (window_starts ms (dropWhile (\<lambda>u. u < since ?q + ms) (map fst rest)))"
  proof (rule run_times_pending)
    show "\<forall>x\<in>set rest. doc_uri (snd x) = doc_uri (args ?q)" using assms(1) Cons by simp
    show "since ?q \<le> latest ?q" by simp
    show "\<forall>x\<in>set rest. latest ?q \<le> fst x" using assms(2) Cons by auto
    show "sorted (map fst rest)" using assms(2) Cons by simp
  qed
  then show ?thesis using Cons by (simp add: trigger_empty)
qed

lemma change_triggers_times:
  "map fst (documentChange_triggers s (changes_of k evs)) = map fst (changes_of k evs)"
proof (induction evs arbitrary: s)
  case Nil
  show ?case by (simp add: changes_of_def)
next
  case (Cons x evs)
  obtain t e ev where x: "x = (t, e, ev)" by (cases x) auto
  show ?case
    unfolding x
    using Cons [of "state (handle e s ev)"] Cons [of s]
    by (cases ev)
       (simp_all add: changes_Cons triggers_Cons
          del: documentChange_triggers.simps handle.simps)
qed

lemma updates_windows:
  assumes "sorted (map fst evs)"
  shows "updates_of k s evs =
           map (\<lambda>t. t + 1000) (window_starts 1000 (map fst (changes_of k evs)))"
proof -
  have "map fst (run 1000 [] (documentChange_triggers s (changes_of k evs))) =
      map (\<lambda>t. t + 1000)
        (window_starts 1000 (map fst (documentChange_triggers s (changes_of k evs))))"
    by (rule run_times_idle [OF change_triggers_keys change_triggers_sorted [OF assms]])
  then show ?thesis
    using updates_run [of k s evs s] by (simp add: change_triggers_times)
qed

lemma updates_spaced:
  assumes "sorted (map fst evs)"
  shows "sorted_wrt (\<lambda>a b. a + 1000 \<le> b) (updates_of k s evs)"
proof -
  have "sorted (map fst (changes_of k evs))"
    using assms by (simp add: changes_of_def sorted_filter)
  then have "sorted_wrt (\<lambda>a b. a + 1000 \<le> b) (window_starts 1000 (map fst (changes_of k evs)))"
    by (rule window_starts_spaced)
  then show ?thesis
    by (simp add: updates_windows [OF assms] sorted_wrt_map add.commute)
qed

text \<open>
  C1: in a session whose events arrive in order of time, for every document: each
  documentChange event of the document is followed by a recompute of its diagnostics later
  than the event and at most 1000 ms after it, whatever other events arrive; any two recomputes
  of the document are at least 1000 ms apart, so no window of 1000 ms has more than one; the
  recomputes are exactly one per window of changes, at the end of the window; if all
  documentChange events of the document lie within one window of 1000 ms, at most one recompute
  runs for it; and the recomputes of a document are those of a session that has the
  documentChange events of that document only, so changes of other documents neither delay nor
  replace them.
\<close>

theorem diagnostics_coalesced_per_document:
  assumes "sorted (map fst evs)"
  shows "(\<forall>x\<in>set (changes_of k evs).
            \<exists>t'\<in>set (updates_of k s evs). fst x < t' \<and> t' \<le> fst x + 1000) \<and>
         sorted_wrt (\<lambda>a b. a + 1000 \<le> b) (updates_of k s evs) \<and>
         updates_of k s evs =
           map (\<lambda>t. t + 1000) (window_starts 1000 (map fst (changes_of k evs))) \<and>
         ((\<forall>x\<in>set (changes_of k evs). \<forall>y\<in>set (changes_of k evs). fst y < fst x + 1000) \<longrightarrow>
            length (updates_of k s evs) \<le> 1) \<and>
         updates_of k s evs = updates_of k s (changes_of k evs)"
proof -
  let ?T = "documentChange_triggers s (changes_of k evs)"
  have keys: "\<forall>tr\<in>set ?T. doc_uri (snd tr) = k" by (rule change_triggers_keys)
  have srt: "sorted (map fst ?T)" using assms by (rule change_triggers_sorted)
  have upd: "updates_of k s evs = map fst (run 1000 [] ?T)" by (rule updates_run)
  have served: "\<exists>t'\<in>set (updates_of k s evs). fst x < t' \<and> t' \<le> fst x + 1000"
    if xin: "x \<in> set (changes_of k evs)" for x
  proof -
    obtain t e ev where x: "x = (t, e, ev)" by (cases x) auto
    obtain document where ev: "ev = DocumentChange document"
      using changes_are_DocumentChange [OF xin] x by auto
    have "(t, document) \<in> set ?T"
      using xin x ev triggers_all_changes [of t document s "changes_of k evs"] by blast
    then obtain r where "r \<in> set (run 1000 [] ?T)" "fst (t, document) < fst r"
        "fst r \<le> fst (t, document) + 1000"
      using served_within_interval_idle [OF keys srt, of 1000 "(t, document)"] by auto
    then have "fst r \<in> set (updates_of k s evs)" "fst x < fst r" "fst r \<le> fst x + 1000"
      using upd x by simp_all
    then show ?thesis by blast
  qed
  have once: "length (updates_of k s evs) \<le> 1"
    if within: "\<forall>x\<in>set (changes_of k evs). \<forall>y\<in>set (changes_of k evs). fst y < fst x + 1000"
  proof -
    have "\<exists>x\<in>set (changes_of k evs). fst x = fst tr" if trin: "tr \<in> set ?T" for tr
      using trin triggers_all_changes [of "fst tr" "snd tr" s "changes_of k evs"] by force
    then have "\<forall>tr\<in>set ?T. \<forall>tr'\<in>set ?T. fst tr' < fst tr + 1000"
      using within by metis
    then have "length (run 1000 [] ?T) \<le> 1"
      using one_recompute_idle [OF keys srt] by blast
    then show ?thesis using upd by simp
  qed
  have "updates_of k s evs = updates_of k s (changes_of k evs)"
    using updates_run [of k s evs s] updates_run [of k s "changes_of k evs" s]
    by (simp add: changes_idem)
  then show ?thesis
    using served once updates_spaced [OF assms, of k s] updates_windows [OF assms, of k s]
    by blast
qed

theorem diagnostics_coalesced_per_document_witness:
  "sorted (map fst example_changes) \<and>
   map fst (changes_of ''b'' example_changes) = [100, 900] \<and>
   updates_of ''b'' startLanguageServer example_changes = [1100] \<and>
   length (updates_of ''b'' startLanguageServer example_changes) \<le> 1 \<and>
   map fst (changes_of ''a'' example_changes) = [0, 200, 1000, 1001, 1002, 1500] \<and>
   window_starts 1000 [0, 200, 1000, 1001, 1002, 1500] = [0, 1000] \<and>
   updates_of ''a'' startLanguageServer example_changes = [1000, 2000]"
  using diagnostics_coalesced_per_document [of example_changes "''b''" startLanguageServer]
    diagnostics_coalesced_per_document [of example_changes "''a''" startLanguageServer]
  by (simp add: example_changes_def changes_of_def updates_of_def diagnostics_updates_def
      debounceThrottle_def for_document_def trigger_def on_trigger_def deadline_def
      documentChange_def Let_def)

end
